theory Spec2Isabelle
  imports Complex_Main "HOL-Library.Sublist"
begin

section \<open>Constants and the signal enumeration (tools/constants.py)\<close>

text \<open>
  Python integers are unbounded: \<open>int\<close>. Text and byte strings are lists of 8-bit
  characters. The transport carries \<open>text.encode()\<close> and the receiver reads it back with
  \<open>decode('utf-8')\<close>; UTF-8 decoding inverts encoding and distributes over concatenation,
  so messages are kept as text on both sides.
\<close>

type_synonym bytes = "char list"

definition DEFAULT_MAX_DATA :: int where
  "DEFAULT_MAX_DATA = 1048576"

definition DELIMITER :: string where
  "DELIMITER = ''***''"

definition MAX_BYTES :: nat where
  "MAX_BYTES = 1230"

datatype Actions =
    CUSTOM
  | WHOAMI | HOSTNAME | PWD | LS | IPCONFIG
  | NOT_A_VALID_INTEGER | NO_RESPONSE_NEEDED | FILE_NOT_FOUND
  | CLIENT_HELLO | CLIENT_RESPONSE | CLIENT_FAIL | CLIENT_KILL | CLIENT_FILE_SEND
  | SERVER_SEES_HELLO | SERVER_SEES_RESPONSE | SERVER_FILE_SEND | SERVER_FILE_RECV

text \<open>\<open>item.value\<close> of each member.\<close>

fun Actions_value :: "Actions \<Rightarrow> int" where
  "Actions_value CUSTOM = 1153433"
| "Actions_value WHOAMI = 2097152"
| "Actions_value HOSTNAME = 2202009"
| "Actions_value PWD = 2306867"
| "Actions_value LS = 2411724"
| "Actions_value IPCONFIG = 2516582"
| "Actions_value NOT_A_VALID_INTEGER = 9437184"
| "Actions_value NO_RESPONSE_NEEDED = 9542041"
| "Actions_value FILE_NOT_FOUND = 9646899"
| "Actions_value CLIENT_HELLO = 10485760"
| "Actions_value CLIENT_RESPONSE = 10590617"
| "Actions_value CLIENT_FAIL = 10695475"
| "Actions_value CLIENT_KILL = 10800332"
| "Actions_value CLIENT_FILE_SEND = 10905190"
| "Actions_value SERVER_SEES_HELLO = 11534336"
| "Actions_value SERVER_SEES_RESPONSE = 11639193"
| "Actions_value SERVER_FILE_SEND = 11744051"
| "Actions_value SERVER_FILE_RECV = 11848908"

text \<open>\<open>item.name.lower()\<close> of each member, as \<open>stock_command\<close> computes it.\<close>

fun name_lower :: "Actions \<Rightarrow> string" where
  "name_lower CUSTOM = ''custom''"
| "name_lower WHOAMI = ''whoami''"
| "name_lower HOSTNAME = ''hostname''"
| "name_lower PWD = ''pwd''"
| "name_lower LS = ''ls''"
| "name_lower IPCONFIG = ''ipconfig''"
| "name_lower NOT_A_VALID_INTEGER = ''not_a_valid_integer''"
| "name_lower NO_RESPONSE_NEEDED = ''no_response_needed''"
| "name_lower FILE_NOT_FOUND = ''file_not_found''"
| "name_lower CLIENT_HELLO = ''client_hello''"
| "name_lower CLIENT_RESPONSE = ''client_response''"
| "name_lower CLIENT_FAIL = ''client_fail''"
| "name_lower CLIENT_KILL = ''client_kill''"
| "name_lower CLIENT_FILE_SEND = ''client_file_send''"
| "name_lower SERVER_SEES_HELLO = ''server_sees_hello''"
| "name_lower SERVER_SEES_RESPONSE = ''server_sees_response''"
| "name_lower SERVER_FILE_SEND = ''server_file_send''"
| "name_lower SERVER_FILE_RECV = ''server_file_recv''"

text \<open>Iterating over the enumeration class yields its members in definition order.\<close>

definition all_Actions :: "Actions list" where
  "all_Actions =
     [CUSTOM, WHOAMI, HOSTNAME, PWD, LS, IPCONFIG,
      NOT_A_VALID_INTEGER, NO_RESPONSE_NEEDED, FILE_NOT_FOUND,
      CLIENT_HELLO, CLIENT_RESPONSE, CLIENT_FAIL, CLIENT_KILL, CLIENT_FILE_SEND,
      SERVER_SEES_HELLO, SERVER_SEES_RESPONSE, SERVER_FILE_SEND, SERVER_FILE_RECV]"

section \<open>Shared functionality (tools/shared\_functionality.py)\<close>

text \<open>
  \<open>int_to_enum\<close>: the loop returns the first member whose value equals the input; when
  the loop ends without a match the function returns \<open>NOT_A_VALID_INTEGER\<close>.
\<close>

fun int_to_enum_loop :: "Actions list \<Rightarrow> int \<Rightarrow> Actions" where
  "int_to_enum_loop [] input = NOT_A_VALID_INTEGER"
| "int_to_enum_loop (item # items) input =
     (if input = Actions_value item then item else int_to_enum_loop items input)"

definition int_to_enum :: "int \<Rightarrow> Actions" where
  "int_to_enum input = int_to_enum_loop all_Actions input"

section \<open>Python values the code relies on\<close>

text \<open>Every exception the modelled code can raise is a value.\<close>

datatype py_error =
    OperationalError
  | ValueError
  | TypeError
  | IndexError
  | NotImplementedError
  | CalledProcessError int bytes bytes

text \<open>
  An argument that the code passes sometimes as an \<open>int\<close> and sometimes as a \<open>str\<close>
  (\<open>del_stream_id\<close> gets an integer from the server and a piece of text from
  \<open>clean_stagnant\<close>).
\<close>

datatype pyval = PyInt int | PyStr string

subsection \<open>\<open>str(n)\<close> for an integer\<close>

definition digit_char :: "nat \<Rightarrow> char" where
  "digit_char d = ''0123456789'' ! d"

function str_nat :: "nat \<Rightarrow> string" where
  "str_nat n = (if n < 10 then [digit_char n] else str_nat (n div 10) @ [digit_char (n mod 10)])"
  by pat_completeness auto
termination
  by (relation "measure id") auto

declare str_nat.simps [simp del]

definition str_int :: "int \<Rightarrow> string" where
  "str_int i = (if i < 0 then CHR ''-'' # str_nat (nat (- i)) else str_nat (nat i))"

fun py_str :: "pyval \<Rightarrow> string" where
  "py_str (PyInt i) = str_int i"
| "py_str (PyStr s) = s"

subsection \<open>\<open>s.strip()\<close>, \<open>int(s)\<close>, \<open>s[i]\<close>, \<open>s.split(sep)\<close>, \<open>sep.join(items)\<close>\<close>

text \<open>
  Characters are code points below 256. Among them \<open>str.isspace\<close> holds for
  U+0009..U+000D, U+001C..U+001F, U+0020, U+0085 and U+00A0, and only \<open>0\<close>..\<open>9\<close> are
  decimal digits.
\<close>

definition py_isspace :: "char \<Rightarrow> bool" where
  "py_isspace c = ((of_char c :: nat) \<in> {9, 10, 11, 12, 13, 28, 29, 30, 31, 32, 133, 160})"

definition py_isdigit :: "char \<Rightarrow> bool" where
  "py_isdigit c = (48 \<le> (of_char c :: nat) \<and> (of_char c :: nat) \<le> 57)"

definition digit_val :: "char \<Rightarrow> nat" where
  "digit_val c = of_char c - 48"

definition py_strip :: "string \<Rightarrow> string" where
  "py_strip s = rev (dropWhile py_isspace (rev (dropWhile py_isspace s)))"

text \<open>
  The digit part of a base-10 literal accepted by \<open>int(s)\<close>: groups of digits, single
  underscores allowed between digits only.
\<close>

fun digits_ok :: "string \<Rightarrow> bool" where
  "digits_ok [] = False"
| "digits_ok [c] = py_isdigit c"
| "digits_ok (c # d # r) =
     (py_isdigit c \<and> (if d = CHR ''_'' then digits_ok r else digits_ok (d # r)))"

definition digits_value :: "string \<Rightarrow> nat" where
  "digits_value s = foldl (\<lambda>a c. 10 * a + digit_val c) 0 (filter (\<lambda>c. c \<noteq> CHR ''_'') s)"

text \<open>
  \<open>int(s)\<close> on text: surrounding whitespace is dropped, one sign is allowed, the rest
  must be a digit part; anything else raises \<open>ValueError\<close>. (The interpreter's limit on
  the number of digits, 4300 by default, is not modelled: identifiers stay below
  \<open>MAX_VLIE_INT\<close>.)
\<close>

definition py_int :: "string \<Rightarrow> py_error + int" where
  "py_int s =
     (let t = py_strip s;
          neg = (t \<noteq> [] \<and> hd t = CHR ''-'');
          u = (if t \<noteq> [] \<and> (hd t = CHR ''-'' \<or> hd t = CHR ''+'') then tl t else t)
      in if digits_ok u
         then Inr (if neg then - int (digits_value u) else int (digits_value u))
         else Inl ValueError)"

text \<open>\<open>s[i]\<close> for a literal index \<open>i \<ge> 0\<close>: a one-character string, or \<open>IndexError\<close>.\<close>

definition py_getitem :: "string \<Rightarrow> nat \<Rightarrow> py_error + string" where
  "py_getitem s i = (if i < length s then Inr [s ! i] else Inl IndexError)"

text \<open>\<open>r[i:j]\<close> for \<open>0 \<le> i \<le> j\<close>.\<close>

definition py_slice :: "'a list \<Rightarrow> nat \<Rightarrow> nat \<Rightarrow> 'a list" where
  "py_slice r i j = take (j - i) (drop i r)"

text \<open>
  \<open>s.split(sep)\<close> scans from the left and cuts at every occurrence of the separator that
  does not overlap the previous cut; \<open>cur\<close> holds the current fragment, reversed. An empty
  separator raises \<open>ValueError\<close>.
\<close>

function split_from :: "string \<Rightarrow> string \<Rightarrow> string \<Rightarrow> string list" where
  "split_from sep cur s =
     (if s = [] then [rev cur]
      else if sep \<noteq> [] \<and> prefix sep s then rev cur # split_from sep [] (drop (length sep) s)
      else split_from sep (hd s # cur) (tl s))"
  by pat_completeness auto
termination
  by (relation "measure (\<lambda>(sep, cur, s). length s)") auto

declare split_from.simps [simp del]

definition py_split :: "string \<Rightarrow> string \<Rightarrow> py_error + string list" where
  "py_split s sep = (if sep = [] then Inl ValueError else Inr (split_from sep [] s))"

fun py_join :: "string \<Rightarrow> string list \<Rightarrow> string" where
  "py_join sep [] = []"
| "py_join sep [x] = x"
| "py_join sep (x # y # r) = x @ sep @ py_join sep (y # r)"

text \<open>\<open>a - b\<close> with a float on the left: defined for a number, \<open>TypeError\<close> for text.\<close>

fun float_sub :: "real \<Rightarrow> pyval \<Rightarrow> py_error + real" where
  "float_sub a (PyInt i) = Inr (a - real_of_int i)"
| "float_sub a (PyStr s) = Inl TypeError"

section \<open>The database (c2\_dealer.py)\<close>

text \<open>
  The store has four tables. A table that does not exist is \<open>None\<close>: every statement on
  it raises \<open>sqlite3.OperationalError\<close>. A table that exists is the list of its rows in
  insertion order, which is the order a \<open>select\<close> without \<open>order by\<close> walks them in.

  The column \<open>stream_id\<close> holds text: every insert writes \<open>str(stream_id)\<close> of an
  integer. A row keeps that integer, and the text is produced by \<open>str_int\<close> wherever the
  code reads or compares it. The column \<open>time\<close> holds the float returned by
  \<open>time.time()\<close>, a real number here; the clock is an argument of the operations that
  read it.
\<close>

record QuiC2Database =
  alive_clients :: "(int \<times> real) list option"
  cmd_pool :: "(int \<times> string) list option"
  files_send :: "(int \<times> string) list option"
  files_recv :: "(int \<times> string) list option"

text \<open>\<open>__init__\<close>: each \<open>create table\<close> is skipped when the table already exists.\<close>

definition create_table :: "'a list option \<Rightarrow> 'a list option" where
  "create_table t = (case t of None \<Rightarrow> Some [] | Some rows \<Rightarrow> Some rows)"

definition init_db :: "QuiC2Database \<Rightarrow> QuiC2Database" where
  "init_db file =
     \<lparr> alive_clients = create_table (alive_clients file),
       cmd_pool = create_table (cmd_pool file),
       files_send = create_table (files_send file),
       files_recv = create_table (files_recv file) \<rparr>"

text \<open>A database file that does not exist yet.\<close>

definition no_tables :: QuiC2Database where
  "no_tables = \<lparr> alive_clients = None, cmd_pool = None, files_send = None, files_recv = None \<rparr>"

text \<open>\<open>where stream_id = "<text>"\<close> compares the stored text with the given one.\<close>

definition row_matches :: "string \<Rightarrow> int \<times> 'a \<Rightarrow> bool" where
  "row_matches txt row = (str_int (fst row) = txt)"

definition sel_all_alive :: "QuiC2Database \<Rightarrow> string list \<times> bool" where
  "sel_all_alive db =
     (case alive_clients db of
        None \<Rightarrow> ([], True)
      | Some rows \<Rightarrow> (map (\<lambda>row. str_int (fst row)) rows, False))"

text \<open>The membership loop of \<open>insert_new_stream_id\<close>: \<open>int(client)\<close> may raise.\<close>

fun stream_id_seen :: "int \<Rightarrow> string list \<Rightarrow> py_error + bool" where
  "stream_id_seen stream_id [] = Inr False"
| "stream_id_seen stream_id (client # clients) =
     (case py_int client of
        Inl e \<Rightarrow> Inl e
      | Inr k \<Rightarrow> if stream_id = k then Inr True else stream_id_seen stream_id clients)"

text \<open>
  \<open>insert_new_stream_id\<close>: the error flag of \<open>sel_all_alive\<close> is dropped, and the insert
  is not guarded, so a missing table raises. \<open>now\<close> is \<open>time.time()\<close> at the insert.
\<close>

definition insert_new_stream_id ::
    "QuiC2Database \<Rightarrow> int \<Rightarrow> real \<Rightarrow> py_error + (bool \<times> QuiC2Database)" where
  "insert_new_stream_id db stream_id now =
     (case stream_id_seen stream_id (fst (sel_all_alive db)) of
        Inl e \<Rightarrow> Inl e
      | Inr True \<Rightarrow> Inr (False, db)
      | Inr False \<Rightarrow>
          (case alive_clients db of
             None \<Rightarrow> Inl OperationalError
           | Some rows \<Rightarrow> Inr (True, db\<lparr>alive_clients := Some (rows @ [(stream_id, now)])\<rparr>)))"

definition insert_new_cmd :: "QuiC2Database \<Rightarrow> int \<Rightarrow> string \<Rightarrow> py_error + QuiC2Database" where
  "insert_new_cmd db stream_id cmd =
     (case cmd_pool db of
        None \<Rightarrow> Inl OperationalError
      | Some rows \<Rightarrow> Inr (db\<lparr>cmd_pool := Some (rows @ [(stream_id, cmd)])\<rparr>))"

definition insert_new_file_send ::
    "QuiC2Database \<Rightarrow> int \<Rightarrow> string \<Rightarrow> py_error + QuiC2Database" where
  "insert_new_file_send db stream_id filename =
     (case files_send db of
        None \<Rightarrow> Inl OperationalError
      | Some rows \<Rightarrow> Inr (db\<lparr>files_send := Some (rows @ [(stream_id, filename)])\<rparr>))"

definition insert_new_file_recv ::
    "QuiC2Database \<Rightarrow> int \<Rightarrow> string \<Rightarrow> py_error + QuiC2Database" where
  "insert_new_file_recv db stream_id filename =
     (case files_recv db of
        None \<Rightarrow> Inl OperationalError
      | Some rows \<Rightarrow> Inr (db\<lparr>files_recv := Some (rows @ [(stream_id, filename)])\<rparr>))"

text \<open>
  \<open>sel_and_del_cmd\<close>: every command of the matching rows, then the \<open>delete\<close> of the
  matching rows.
\<close>

definition sel_and_del_cmd ::
    "QuiC2Database \<Rightarrow> int \<Rightarrow> (string list \<times> bool) \<times> QuiC2Database" where
  "sel_and_del_cmd db stream_id =
     (case cmd_pool db of
        None \<Rightarrow> (([], True), db)
      | Some rows \<Rightarrow>
          ((map snd (filter (row_matches (str_int stream_id)) rows), False),
           db\<lparr>cmd_pool := Some (filter (\<lambda>row. \<not> row_matches (str_int stream_id) row) rows)\<rparr>))"

text \<open>
  The loop \<open>for row in rows: filename = row[1]; break\<close> keeps the first matching
  filename, \<open>''\<close> when there is none.
\<close>

definition first_filename :: "(int \<times> string) list \<Rightarrow> string" where
  "first_filename rows = (case rows of [] \<Rightarrow> [] | row # _ \<Rightarrow> snd row)"

definition sel_and_del_file_send ::
    "QuiC2Database \<Rightarrow> int \<Rightarrow> (string \<times> bool) \<times> QuiC2Database" where
  "sel_and_del_file_send db stream_id =
     (case files_send db of
        None \<Rightarrow> (([], True), db)
      | Some rows \<Rightarrow>
          ((first_filename (filter (row_matches (str_int stream_id)) rows), False),
           db\<lparr>files_send := Some (filter (\<lambda>row. \<not> row_matches (str_int stream_id) row) rows)\<rparr>))"

definition sel_and_del_file_recv ::
    "QuiC2Database \<Rightarrow> int \<Rightarrow> (string \<times> bool) \<times> QuiC2Database" where
  "sel_and_del_file_recv db stream_id =
     (case files_recv db of
        None \<Rightarrow> (([], True), db)
      | Some rows \<Rightarrow>
          ((first_filename (filter (row_matches (str_int stream_id)) rows), False),
           db\<lparr>files_recv := Some (filter (\<lambda>row. \<not> row_matches (str_int stream_id) row) rows)\<rparr>))"

text \<open>
  \<open>del_stream_id\<close>: a \<open>delete\<close> that matches no row is not an error, so the function
  returns \<open>True\<close> whenever the table exists.
\<close>

definition del_stream_id :: "QuiC2Database \<Rightarrow> pyval \<Rightarrow> bool \<times> QuiC2Database" where
  "del_stream_id db stream_id =
     (case alive_clients db of
        None \<Rightarrow> (False, db)
      | Some rows \<Rightarrow>
          (True,
           db\<lparr>alive_clients := Some (filter (\<lambda>row. \<not> row_matches (py_str stream_id) row) rows)\<rparr>))"

text \<open>
  The loop of \<open>clean_stagnant\<close>. \<open>client\<close> is an element of the list returned by
  \<open>sel_all_alive\<close>, that is, the text of a \<open>stream_id\<close>: \<open>client[1]\<close> and \<open>client[0]\<close>
  index into that text. A raise leaves the loop with the database as it is then.
\<close>

fun clean_stagnant_loop ::
    "real \<Rightarrow> QuiC2Database \<Rightarrow> string list \<Rightarrow> string list \<Rightarrow>
     (py_error + string list) \<times> QuiC2Database" where
  "clean_stagnant_loop now db [] removed = (Inr removed, db)"
| "clean_stagnant_loop now db (client # clients) removed =
     (case py_getitem client 1 of
        Inl e \<Rightarrow> (Inl e, db)
      | Inr c1 \<Rightarrow>
          (case float_sub now (PyStr c1) of
             Inl e \<Rightarrow> (Inl e, db)
           | Inr age \<Rightarrow>
               if age > 60
               then (case py_getitem client 0 of
                       Inl e \<Rightarrow> (Inl e, db)
                     | Inr c0 \<Rightarrow>
                         clean_stagnant_loop now (snd (del_stream_id db (PyStr c0)))
                           clients (removed @ [c0]))
               else clean_stagnant_loop now db clients removed))"

definition clean_stagnant ::
    "QuiC2Database \<Rightarrow> real \<Rightarrow> (py_error + (string list \<times> bool)) \<times> QuiC2Database" where
  "clean_stagnant db now =
     (let (clients, error) = sel_all_alive db
      in if \<not> error \<and> clients \<noteq> []
         then (case clean_stagnant_loop now db clients [] of
                 (Inl e, db') \<Rightarrow> (Inl e, db')
               | (Inr removed, db') \<Rightarrow> (Inr (removed, True), db'))
         else (Inr ([], False), db))"

text \<open>
  The sweep that the docstring of \<open>clean_stagnant\<close> describes (``clean database entries
  older than 60 seconds''), written over the rows: the identifiers it would evict and the
  rows it would keep.
\<close>

definition stagnant_ids :: "real \<Rightarrow> (int \<times> real) list \<Rightarrow> string list" where
  "stagnant_ids now rows = map (\<lambda>row. str_int (fst row)) (filter (\<lambda>row. now - snd row > 60) rows)"

definition fresh_rows :: "real \<Rightarrow> (int \<times> real) list \<Rightarrow> (int \<times> real) list" where
  "fresh_rows now rows = filter (\<lambda>row. \<not> now - snd row > 60) rows"

section \<open>Server responses (server/server\_comms.py)\<close>

text \<open>
  \<open>respond_to_sdr\<close> registers the identifier, then answers by the decoded signal. The
  call of \<open>insert_new_stream_id\<close> is not guarded, so its exception leaves the function.
\<close>

definition hello_reply ::
    "QuiC2Database \<Rightarrow> int \<Rightarrow> (Actions \<times> string list) \<times> QuiC2Database" where
  "hello_reply db stream_id =
     (let ((cmds, error), db1) = sel_and_del_cmd db stream_id
      in if \<not> error \<and> cmds \<noteq> [] then ((SERVER_SEES_HELLO, cmds), db1)
         else
           let ((file_send, error), db2) = sel_and_del_file_send db1 stream_id
           in if \<not> error \<and> file_send \<noteq> [] then ((SERVER_FILE_SEND, [file_send]), db2)
              else
                let ((file_recv, error), db3) = sel_and_del_file_recv db2 stream_id
                in if \<not> error \<and> file_recv \<noteq> [] then ((SERVER_FILE_RECV, [file_recv]), db3)
                   else ((NO_RESPONSE_NEEDED, []), db3))"

definition respond_to_sdr ::
    "QuiC2Database \<Rightarrow> int \<Rightarrow> Actions \<Rightarrow> real \<Rightarrow>
     py_error + ((Actions \<times> string list) \<times> QuiC2Database)" where
  "respond_to_sdr db_con stream_id val now =
     (case insert_new_stream_id db_con stream_id now of
        Inl e \<Rightarrow> Inl e
      | Inr (added, db) \<Rightarrow>
          (if val = CLIENT_HELLO then Inr (hello_reply db stream_id)
           else if val = CLIENT_RESPONSE then Inr ((SERVER_SEES_RESPONSE, []), db)
           else if val = FILE_NOT_FOUND then Inr ((FILE_NOT_FOUND, []), db)
           else Inr ((NOT_A_VALID_INTEGER, []), db)))"

section \<open>The server's event handler (c2\_server.py)\<close>

text \<open>
  What the handler touches of the connection and of the disk: the two flow-control
  fields that carry the signal, the frames queued for sending (stream and data), and the
  file \<open>temp\<close>, opened in append mode.
\<close>

record server_conn =
  remote_max_data :: int
  local_max_data :: int
  sent :: "(int \<times> bytes) list"
  temp_file :: bytes

text \<open>
  The head of \<open>quic_event_received\<close> for a \<open>StreamDataReceived\<close> event, up to the call
  of \<open>respond_to_sdr\<close>: either the handler has returned, or it goes on to respond to
  the decoded signal.
\<close>

datatype server_step = Returned server_conn | Respond server_conn Actions

definition quic_event_received :: "server_conn \<Rightarrow> int \<Rightarrow> bytes \<Rightarrow> server_step" where
  "quic_event_received conn stream_id data =
     (let info = int_to_enum (remote_max_data conn)
      in if info = NOT_A_VALID_INTEGER
         then Returned (conn\<lparr> remote_max_data := DEFAULT_MAX_DATA,
                              local_max_data := Actions_value CLIENT_KILL,
                              sent := sent conn @ [(stream_id, [])] \<rparr>)
         else if info = CLIENT_FILE_SEND
         then Returned (conn\<lparr> temp_file := temp_file conn @ data \<rparr>)
         else Respond conn info)"

fun conn_of :: "server_step \<Rightarrow> server_conn" where
  "conn_of (Returned conn) = conn"
| "conn_of (Respond conn info) = conn"

text \<open>The chunks of one upload arriving in order, each as one event.\<close>

fun receive_chunks :: "server_conn \<Rightarrow> int \<Rightarrow> bytes list \<Rightarrow> server_conn" where
  "receive_chunks conn stream_id [] = conn"
| "receive_chunks conn stream_id (data # rest) =
     receive_chunks (conn_of (quic_event_received conn stream_id data)) stream_id rest"

text \<open>
  Dispatch of a custom command (the \<open>ValueError\<close> branch of the command loop): the frame
  is the command followed by the delimiter. The transport may merge the frames of
  several commands into one message.
\<close>

definition custom_frame :: "string \<Rightarrow> string" where
  "custom_frame str_cmd = str_cmd @ DELIMITER"

definition coalesced :: "string list \<Rightarrow> string" where
  "coalesced cmds = concat (map custom_frame cmds)"

section \<open>Chunking (c2\_client.py, c2\_server.py)\<close>

text \<open>
  The loop that sends a response: \<open>response[i:i + MAX_BYTES]\<close>, then \<open>i += MAX_BYTES\<close>,
  until \<open>i > len(response)\<close>. The result is the list of frames sent, in order.
\<close>

function response_chunks :: "bytes \<Rightarrow> nat \<Rightarrow> bytes list" where
  "response_chunks response i =
     py_slice response i (i + MAX_BYTES) #
       (if i + MAX_BYTES > length response then []
        else response_chunks response (i + MAX_BYTES))"
  by pat_completeness auto
termination
  by (relation "measure (\<lambda>(response, i). Suc (length response) - i)")
     (auto simp: MAX_BYTES_def)

declare response_chunks.simps [simp del]

text \<open>
  The loop that sends a file: \<open>f.read(MAX_BYTES)\<close> until it returns nothing; the argument
  is what is left of the file to read.
\<close>

function file_chunks :: "bytes \<Rightarrow> bytes list" where
  "file_chunks unread =
     (let file_data = take MAX_BYTES unread
      in if file_data = [] then []
         else file_data # file_chunks (drop MAX_BYTES unread))"
  by pat_completeness auto
termination
  by (relation "measure length") (auto simp: MAX_BYTES_def)

declare file_chunks.simps [simp del]

section \<open>The client (client/cl\_functions.py, c2\_client.py)\<close>

text \<open>
  The command line is outside the program: \<open>shell\<close> gives, for a command line, the exit
  status and the captured output of running it. With \<open>shell=True\<close> a command that does
  not exist is a nonzero exit status of the shell. \<open>subprocess.run(..., check=True)\<close>
  raises \<open>CalledProcessError\<close> on a nonzero status.
\<close>

record completed_process =
  returncode :: int
  stdout :: bytes
  stderr :: bytes

type_synonym shell = "string \<Rightarrow> completed_process"

definition subprocess_run :: "shell \<Rightarrow> string \<Rightarrow> py_error + completed_process" where
  "subprocess_run sh args =
     (let cp = sh args
      in if returncode cp \<noteq> 0
         then Inl (CalledProcessError (returncode cp) (stdout cp) (stderr cp))
         else Inr cp)"

text \<open>
  \<open>stock_command\<close>; \<open>os\<close> is the constant \<open>OS\<close>, the result of \<open>platform.system()\<close>.
  Nothing catches the exception of \<open>subprocess.run\<close>.
\<close>

definition platform_cmd :: "string \<Rightarrow> string \<Rightarrow> py_error + string" where
  "platform_cmd os cmd =
     (if cmd \<in> set [''ipconfig'']
      then (if os = ''Windows'' then Inr cmd
            else if os = ''Linux'' then Inr (if cmd = ''ipconfig'' then ''ip a'' else cmd)
            else Inl NotImplementedError)
      else Inr cmd)"

definition stock_command :: "string \<Rightarrow> shell \<Rightarrow> Actions \<Rightarrow> py_error + bytes" where
  "stock_command os sh input_cmd =
     (case platform_cmd os (name_lower input_cmd) of
        Inl e \<Rightarrow> Inl e
      | Inr cmd \<Rightarrow>
          (case subprocess_run sh (''powershell.exe '' @ cmd) of
             Inl e \<Rightarrow> Inl e
           | Inr cp \<Rightarrow> Inr (stdout cp)))"

text \<open>
  \<open>str(b)\<close> of a byte string is its literal: \<open>b'...'\<close>, in double quotes when the bytes
  hold a single quote and no double quote, with backslash escapes.
\<close>

definition hex_digit :: "nat \<Rightarrow> char" where
  "hex_digit d = ''0123456789abcdef'' ! d"

definition escape_byte :: "char \<Rightarrow> char \<Rightarrow> string" where
  "escape_byte quote c =
     (if c = quote \<or> c = CHR 0x5C then [CHR 0x5C, c]
      else if c = CHR 0x09 then [CHR 0x5C, CHR ''t'']
      else if c = CHR 0x0A then [CHR 0x5C, CHR ''n'']
      else if c = CHR 0x0D then [CHR 0x5C, CHR ''r'']
      else if (of_char c :: nat) < 32 \<or> (of_char c :: nat) \<ge> 127
      then [CHR 0x5C, CHR ''x'', hex_digit ((of_char c :: nat) div 16),
            hex_digit ((of_char c :: nat) mod 16)]
      else [c])"

definition str_bytes :: "bytes \<Rightarrow> string" where
  "str_bytes b =
     (let quote = (if CHR 0x27 \<in> set b \<and> CHR 0x22 \<notin> set b then CHR 0x22 else CHR 0x27)
      in CHR ''b'' # quote # concat (map (escape_byte quote) b) @ [quote])"

text \<open>
  \<open>custom_command\<close> catches \<open>CalledProcessError\<close> and returns \<open>str(e.stderr).encode()\<close>;
  any other exception leaves the function.
\<close>

definition custom_command :: "shell \<Rightarrow> string \<Rightarrow> py_error + bytes" where
  "custom_command sh cmd =
     (case subprocess_run sh (''powershell.exe '' @ cmd) of
        Inr cp \<Rightarrow> Inr (stdout cp)
      | Inl (CalledProcessError rc out err) \<Rightarrow> Inr (str_bytes err)
      | Inl e \<Rightarrow> Inl e)"

text \<open>
  The client's reading of a message that is not a file:
  \<open>sd_list = data.strip().split(DELIMITER)\<close>, then
  \<open>server_data = [x.strip() for x in sd_list if x]\<close>.
\<close>

definition server_data :: "string \<Rightarrow> py_error + string list" where
  "server_data data =
     (case py_split (py_strip data) DELIMITER of
        Inl e \<Rightarrow> Inl e
      | Inr sd_list \<Rightarrow> Inr (map py_strip (filter (\<lambda>x. x \<noteq> []) sd_list)))"

text \<open>
  The branch of the client's handler that runs commands and collects \<open>responses\<close>:
  every item through \<open>custom_command\<close> when the signal is \<open>CUSTOM\<close>, else the signal
  itself through \<open>stock_command\<close>. The first exception ends it.
\<close>

fun custom_responses :: "shell \<Rightarrow> string list \<Rightarrow> py_error + bytes list" where
  "custom_responses sh [] = Inr []"
| "custom_responses sh (cmd # cmds) =
     (case custom_command sh cmd of
        Inl e \<Rightarrow> Inl e
      | Inr response \<Rightarrow>
          (case custom_responses sh cmds of
             Inl e \<Rightarrow> Inl e
           | Inr responses \<Rightarrow> Inr (response # responses)))"

definition client_responses ::
    "string \<Rightarrow> shell \<Rightarrow> Actions \<Rightarrow> string list \<Rightarrow> py_error + bytes list" where
  "client_responses os sh info items =
     (if info = CUSTOM then custom_responses sh items
      else (case stock_command os sh info of
              Inl e \<Rightarrow> Inl e
            | Inr response \<Rightarrow> Inr [response]))"

section \<open>Scenarios and reference descriptions used by the theorems\<close>

text \<open>A sequence of \<open>insert_new_cmd\<close> calls, each given as (stream\_id, cmd).\<close>

fun enqueue_cmds :: "QuiC2Database \<Rightarrow> (int \<times> string) list \<Rightarrow> py_error + QuiC2Database" where
  "enqueue_cmds db [] = Inr db"
| "enqueue_cmds db (call # calls) =
     (case insert_new_cmd db (fst call) (snd call) of
        Inl e \<Rightarrow> Inl e
      | Inr db' \<Rightarrow> enqueue_cmds db' calls)"

text \<open>
  What is queued for an identifier in a mailbox table, oldest first (nothing when the
  table cannot be read), and the oldest queued filename, \<open>''\<close> when there is none.
\<close>

definition queued :: "(int \<times> string) list option \<Rightarrow> int \<Rightarrow> string list" where
  "queued table stream_id =
     (case table of None \<Rightarrow> [] | Some rows \<Rightarrow> map snd (filter (\<lambda>row. fst row = stream_id) rows))"

definition oldest_filename :: "(int \<times> string) list option \<Rightarrow> int \<Rightarrow> string" where
  "oldest_filename table stream_id =
     (case queued table stream_id of [] \<Rightarrow> [] | filename # _ \<Rightarrow> filename)"

text \<open>
  The reply to \<open>CLIENT_HELLO\<close> by priority: commands, then an outbound file, then an
  inbound request, where a filename counts only when it is not empty.
\<close>

definition priority_reply :: "QuiC2Database \<Rightarrow> int \<Rightarrow> Actions \<times> string list" where
  "priority_reply db stream_id =
     (if queued (cmd_pool db) stream_id \<noteq> []
      then (SERVER_SEES_HELLO, queued (cmd_pool db) stream_id)
      else if oldest_filename (files_send db) stream_id \<noteq> []
      then (SERVER_FILE_SEND, [oldest_filename (files_send db) stream_id])
      else if oldest_filename (files_recv db) stream_id \<noteq> []
      then (SERVER_FILE_RECV, [oldest_filename (files_recv db) stream_id])
      else (NO_RESPONSE_NEEDED, []))"

text \<open>
  An item that delimiter framing carries unchanged: not empty, the delimiter does not
  occur in it, it does not end with \<open>*\<close>, and it neither starts nor ends with whitespace.
\<close>

definition clean_item :: "string \<Rightarrow> bool" where
  "clean_item x =
     (x \<noteq> [] \<and> \<not> sublist DELIMITER x \<and> last x \<noteq> CHR ''*'' \<and>
      \<not> py_isspace (hd x) \<and> \<not> py_isspace (last x))"

text \<open>\<open>k\<close> delimiters in a row.\<close>

definition trailing :: "nat \<Rightarrow> string" where
  "trailing k = concat (replicate k DELIMITER)"

text \<open>A command line on which every command exits with status 1 and an error text.\<close>

definition failing_shell :: shell where
  "failing_shell args = \<lparr> returncode = 1, stdout = [], stderr = ''not recognized'' \<rparr>"

text \<open>A connection whose signal field holds \<open>CLIENT_FILE_SEND\<close>, nothing sent, \<open>temp\<close> empty.\<close>

definition upload_conn :: server_conn where
  "upload_conn =
     \<lparr> remote_max_data = Actions_value CLIENT_FILE_SEND, local_max_data = DEFAULT_MAX_DATA,
       sent = [], temp_file = [] \<rparr>"

text \<open>A freshly created database.\<close>

definition fresh_db :: QuiC2Database where
  "fresh_db = init_db no_tables"

section \<open>Facts about the Python primitives\<close>

text \<open>\<open>int(str(k)) = k\<close>, so the text of an identifier determines it.\<close>

lemma digit_char_props:
  assumes "d < 10"
  shows "py_isdigit (digit_char d)" and "digit_val (digit_char d) = d"
proof -
  from assms have "d \<in> {0, 1, 2, 3, 4, 5, 6, 7, 8, 9}" by auto
  then show "py_isdigit (digit_char d)" and "digit_val (digit_char d) = d"
    by (auto simp: digit_char_def py_isdigit_def digit_val_def)
qed

lemma isdigit_not_special:
  assumes "py_isdigit c"
  shows "\<not> py_isspace c" and "c \<noteq> CHR ''_''" and "c \<noteq> CHR ''-''" and "c \<noteq> CHR ''+''"
  using assms by (auto simp: py_isdigit_def py_isspace_def)

lemma str_nat_digits: "\<forall>c \<in> set (str_nat n). py_isdigit c"
proof (induction n rule: str_nat.induct)
  case (1 n)
  show ?case
  proof (cases "n < 10")
    case True
    then show ?thesis by (simp add: str_nat.simps [of n] digit_char_props)
  next
    case False
    with 1 show ?thesis by (simp add: str_nat.simps [of n] digit_char_props)
  qed
qed

lemma str_nat_nonempty: "str_nat n \<noteq> []"
  by (simp add: str_nat.simps [of n])

lemma filter_digits_id: "\<forall>c \<in> set s. py_isdigit c \<Longrightarrow> filter (\<lambda>c. c \<noteq> CHR ''_'') s = s"
  by (induction s) (auto dest: isdigit_not_special)

lemma digits_value_digits:
  "\<forall>c \<in> set s. py_isdigit c \<Longrightarrow> digits_value s = foldl (\<lambda>a c. 10 * a + digit_val c) 0 s"
  by (simp add: digits_value_def filter_digits_id)

lemma digits_value_str_nat: "digits_value (str_nat n) = n"
proof (induction n rule: str_nat.induct)
  case (1 n)
  show ?case
  proof (cases "n < 10")
    case True
    then have "str_nat n = [digit_char n]" by (simp add: str_nat.simps [of n])
    with True show ?thesis
      by (simp add: digits_value_digits digit_char_props)
  next
    case False
    then have s: "str_nat n = str_nat (n div 10) @ [digit_char (n mod 10)]"
      by (simp add: str_nat.simps [of n])
    have ih: "digits_value (str_nat (n div 10)) = n div 10" using 1 False by simp
    have "digits_value (str_nat n) = foldl (\<lambda>a c. 10 * a + digit_val c) 0 (str_nat n)"
      by (rule digits_value_digits [OF str_nat_digits])
    also have "\<dots> = 10 * foldl (\<lambda>a c. 10 * a + digit_val c) 0 (str_nat (n div 10))
                     + digit_val (digit_char (n mod 10))"
      by (simp add: s)
    also have "\<dots> = 10 * digits_value (str_nat (n div 10)) + n mod 10"
      by (simp add: digits_value_digits [OF str_nat_digits] digit_char_props)
    also have "\<dots> = n" using ih by simp
    finally show ?thesis .
  qed
qed

lemma digits_ok_all_digits: "s \<noteq> [] \<Longrightarrow> \<forall>c \<in> set s. py_isdigit c \<Longrightarrow> digits_ok s"
  by (induction s rule: digits_ok.induct) (auto dest: isdigit_not_special)

lemma py_strip_id:
  assumes "s \<noteq> []" and "\<not> py_isspace (hd s)" and "\<not> py_isspace (last s)"
  shows "py_strip s = s"
proof -
  have a: "dropWhile py_isspace s = s" using assms by (simp add: dropWhile_eq_self_iff)
  have b: "dropWhile py_isspace (rev s) = rev s"
    using assms by (simp add: dropWhile_eq_self_iff hd_rev)
  show ?thesis by (simp add: py_strip_def a b)
qed

lemma py_int_str_int: "py_int (str_int k) = Inr k"
proof -
  let ?n = "nat \<bar>k\<bar>"
  have dig: "\<forall>c \<in> set (str_nat ?n). py_isdigit c" by (rule str_nat_digits)
  have ne: "str_nat ?n \<noteq> []" by (rule str_nat_nonempty)
  have hd_d: "py_isdigit (hd (str_nat ?n))" and last_d: "py_isdigit (last (str_nat ?n))"
    using dig ne by simp_all
  have ok: "digits_ok (str_nat ?n)" using ne dig by (rule digits_ok_all_digits)
  show ?thesis
  proof (cases "k < 0")
    case True
    then have s: "str_int k = CHR ''-'' # str_nat ?n" by (simp add: str_int_def)
    have "py_strip (str_int k) = str_int k"
      unfolding s using ne last_d
      by (intro py_strip_id) (auto simp: py_isspace_def dest: isdigit_not_special)
    then show ?thesis using True ok
      by (simp add: py_int_def s digits_value_str_nat)
  next
    case False
    then have s: "str_int k = str_nat ?n" by (simp add: str_int_def)
    have "py_strip (str_int k) = str_int k"
      unfolding s using ne hd_d last_d
      by (intro py_strip_id) (auto dest: isdigit_not_special)
    then show ?thesis using False ok ne hd_d
      by (auto simp: py_int_def s digits_value_str_nat Let_def dest: isdigit_not_special)
  qed
qed

lemma str_int_inject: "str_int a = str_int b \<longleftrightarrow> a = b"
proof
  assume "str_int a = str_int b"
  then have "py_int (str_int a) = py_int (str_int b)" by simp
  then show "a = b" by (simp add: py_int_str_int)
qed simp

section \<open>The signal decoder and the server's recovery path\<close>

lemma int_to_enum_unmapped:
  "n \<notin> set (map Actions_value all_Actions) \<Longrightarrow> int_to_enum n = NOT_A_VALID_INTEGER"
  by (simp add: int_to_enum_def all_Actions_def)

lemma int_to_enum_sentinel: "int_to_enum 9437184 = NOT_A_VALID_INTEGER"
  by (simp add: int_to_enum_def all_Actions_def)

lemma int_to_enum_value: "int_to_enum (Actions_value a) = a"
  by (cases a) (simp_all add: int_to_enum_def all_Actions_def)

text \<open>
  Claim C10. \<open>9437184\<close> is the value of the member \<open>NOT_A_VALID_INTEGER\<close>, and
  \<open>int_to_enum\<close> maps it to the same member that it returns for every integer that is no
  member's value. On either input the server's handler takes the recovery path: it
  resets the signal field to \<open>DEFAULT_MAX_DATA\<close>, sets the outgoing signal to
  \<open>CLIENT_KILL\<close>, sends an empty frame and returns; the two outcomes are equal.
\<close>

theorem sentinel_code_triggers_recovery:
  "Actions_value NOT_A_VALID_INTEGER = 9437184 \<and>
   int_to_enum 9437184 = NOT_A_VALID_INTEGER \<and>
   quic_event_received (conn\<lparr>remote_max_data := 9437184\<rparr>) stream_id data =
     Returned (conn\<lparr> remote_max_data := DEFAULT_MAX_DATA,
                      local_max_data := Actions_value CLIENT_KILL,
                      sent := sent conn @ [(stream_id, [])] \<rparr>) \<and>
   (\<forall>n. n \<notin> set (map Actions_value all_Actions) \<longrightarrow>
      int_to_enum n = NOT_A_VALID_INTEGER \<and>
      quic_event_received (conn\<lparr>remote_max_data := n\<rparr>) stream_id data =
      quic_event_received (conn\<lparr>remote_max_data := 9437184\<rparr>) stream_id data)"
  using int_to_enum_unmapped int_to_enum_sentinel
  by (simp add: quic_event_received_def)

theorem sentinel_code_triggers_recovery_witness:
  "(7::int) \<notin> set (map Actions_value all_Actions) \<and>
   int_to_enum 7 = NOT_A_VALID_INTEGER \<and>
   quic_event_received (upload_conn\<lparr>remote_max_data := 7\<rparr>) 4 ''Hello!'' =
   quic_event_received (upload_conn\<lparr>remote_max_data := 9437184\<rparr>) 4 ''Hello!'' \<and>
   quic_event_received (upload_conn\<lparr>remote_max_data := 9437184\<rparr>) 4 ''Hello!'' =
     Returned \<lparr> remote_max_data = 1048576, local_max_data = 10800332,
                sent = [(4, [])], temp_file = [] \<rparr>"
proof -
  have h: "(7::int) \<notin> set (map Actions_value all_Actions)"
    by (simp add: all_Actions_def)
  show ?thesis
    using h sentinel_code_triggers_recovery [of upload_conn 4 "''Hello!''"]
    by (simp add: upload_conn_def DEFAULT_MAX_DATA_def)
qed

section \<open>The client registry and the mailbox\<close>

lemma row_matches_str_int [simp]: "row_matches (str_int a) = (\<lambda>row. fst row = a)"
  by (rule ext) (simp add: row_matches_def str_int_inject)

lemma stream_id_seen_registry:
  "stream_id_seen stream_id (map (\<lambda>row. str_int (fst row)) rows) = Inr (stream_id \<in> fst ` set rows)"
  by (induction rows) (auto simp: py_int_str_int)

lemma insert_new_stream_id_present:
  assumes "alive_clients db = Some rows" and "stream_id \<in> fst ` set rows"
  shows "insert_new_stream_id db stream_id now = Inr (False, db)"
  using assms by (simp add: insert_new_stream_id_def sel_all_alive_def stream_id_seen_registry)

lemma insert_new_stream_id_absent:
  assumes "alive_clients db = Some rows" and "stream_id \<notin> fst ` set rows"
  shows "insert_new_stream_id db stream_id now =
         Inr (True, db\<lparr>alive_clients := Some (rows @ [(stream_id, now)])\<rparr>)"
  using assms by (simp add: insert_new_stream_id_def sel_all_alive_def stream_id_seen_registry)

text \<open>
  Claim C7. With the registry table present and the identifier not yet in it, the first
  \<open>insert_new_stream_id\<close> appends the row (stream\_id, now) and returns \<open>True\<close>; a
  second call with the same identifier, at any later time, returns \<open>False\<close> and leaves
  the whole database as it is: the registry has the same rows, and the time of the
  existing row is not refreshed.
\<close>

theorem insert_new_stream_id_idempotent:
  assumes "alive_clients db = Some rows" and "stream_id \<notin> fst ` set rows"
  shows "insert_new_stream_id db stream_id now =
           Inr (True, db\<lparr>alive_clients := Some (rows @ [(stream_id, now)])\<rparr>) \<and>
         insert_new_stream_id (db\<lparr>alive_clients := Some (rows @ [(stream_id, now)])\<rparr>) stream_id later =
           Inr (False, db\<lparr>alive_clients := Some (rows @ [(stream_id, now)])\<rparr>)"
proof
  show "insert_new_stream_id db stream_id now =
           Inr (True, db\<lparr>alive_clients := Some (rows @ [(stream_id, now)])\<rparr>)"
    using assms by (rule insert_new_stream_id_absent)
  show "insert_new_stream_id (db\<lparr>alive_clients := Some (rows @ [(stream_id, now)])\<rparr>) stream_id later =
           Inr (False, db\<lparr>alive_clients := Some (rows @ [(stream_id, now)])\<rparr>)"
    by (rule insert_new_stream_id_present [where rows = "rows @ [(stream_id, now)]"]) simp_all
qed

theorem insert_new_stream_id_idempotent_witness:
  "alive_clients fresh_db = Some [] \<and>
   (12::int) \<notin> fst ` set ([] :: (int \<times> real) list) \<and>
   insert_new_stream_id fresh_db 12 100 =
     Inr (True, fresh_db\<lparr>alive_clients := Some [(12, 100)]\<rparr>) \<and>
   insert_new_stream_id (fresh_db\<lparr>alive_clients := Some [(12, 100)]\<rparr>) 12 130 =
     Inr (False, fresh_db\<lparr>alive_clients := Some [(12, 100)]\<rparr>)"
  using insert_new_stream_id_idempotent [of fresh_db "[]" 12 100 130]
  by (simp add: fresh_db_def init_db_def no_tables_def create_table_def)

lemma enqueue_cmds_appends:
  "cmd_pool db = Some rows \<Longrightarrow> enqueue_cmds db calls = Inr (db\<lparr>cmd_pool := Some (rows @ calls)\<rparr>)"
proof (induction calls arbitrary: db rows)
  case Nil
  then show ?case by simp
next
  case (Cons call calls)
  have "insert_new_cmd db (fst call) (snd call) = Inr (db\<lparr>cmd_pool := Some (rows @ [call])\<rparr>)"
    using Cons.prems by (simp add: insert_new_cmd_def)
  moreover have "enqueue_cmds (db\<lparr>cmd_pool := Some (rows @ [call])\<rparr>) calls =
                 Inr (db\<lparr>cmd_pool := Some ((rows @ [call]) @ calls)\<rparr>)"
    using Cons.IH [of "db\<lparr>cmd_pool := Some (rows @ [call])\<rparr>" "rows @ [call]"] by simp
  ultimately show ?case by simp
qed

lemma sel_and_del_cmd_rows:
  "sel_and_del_cmd (db\<lparr>cmd_pool := Some rows\<rparr>) stream_id =
     ((map snd (filter (\<lambda>row. fst row = stream_id) rows), False),
      db\<lparr>cmd_pool := Some (filter (\<lambda>row. fst row \<noteq> stream_id) rows)\<rparr>)"
  by (simp add: sel_and_del_cmd_def)

text \<open>
  Claim C6. With the command table present, any sequence of \<open>insert_new_cmd\<close> calls
  appends its rows in order; \<open>sel_and_del_cmd\<close> then returns the commands of the given
  identifier in the order they were enqueued, without error, and deletes them; an
  immediate second call returns the empty list; what the call returns for any other
  identifier is the same before and after.
\<close>

theorem sel_and_del_cmd_fifo:
  assumes "cmd_pool db = Some rows"
  shows "enqueue_cmds db calls = Inr (db\<lparr>cmd_pool := Some (rows @ calls)\<rparr>) \<and>
         sel_and_del_cmd (db\<lparr>cmd_pool := Some (rows @ calls)\<rparr>) stream_id =
           ((map snd (filter (\<lambda>row. fst row = stream_id) (rows @ calls)), False),
            db\<lparr>cmd_pool := Some (filter (\<lambda>row. fst row \<noteq> stream_id) (rows @ calls))\<rparr>) \<and>
         sel_and_del_cmd
             (db\<lparr>cmd_pool := Some (filter (\<lambda>row. fst row \<noteq> stream_id) (rows @ calls))\<rparr>) stream_id =
           (([], False),
            db\<lparr>cmd_pool := Some (filter (\<lambda>row. fst row \<noteq> stream_id) (rows @ calls))\<rparr>) \<and>
         (\<forall>other. other \<noteq> stream_id \<longrightarrow>
            fst (sel_and_del_cmd
                   (db\<lparr>cmd_pool := Some (filter (\<lambda>row. fst row \<noteq> stream_id) (rows @ calls))\<rparr>) other) =
            fst (sel_and_del_cmd (db\<lparr>cmd_pool := Some (rows @ calls)\<rparr>) other))"
proof (intro conjI allI impI)
  show "enqueue_cmds db calls = Inr (db\<lparr>cmd_pool := Some (rows @ calls)\<rparr>)"
    using assms by (rule enqueue_cmds_appends)
  show "sel_and_del_cmd (db\<lparr>cmd_pool := Some (rows @ calls)\<rparr>) stream_id =
           ((map snd (filter (\<lambda>row. fst row = stream_id) (rows @ calls)), False),
            db\<lparr>cmd_pool := Some (filter (\<lambda>row. fst row \<noteq> stream_id) (rows @ calls))\<rparr>)"
    by (rule sel_and_del_cmd_rows)
  show "sel_and_del_cmd
             (db\<lparr>cmd_pool := Some (filter (\<lambda>row. fst row \<noteq> stream_id) (rows @ calls))\<rparr>) stream_id =
           (([], False),
            db\<lparr>cmd_pool := Some (filter (\<lambda>row. fst row \<noteq> stream_id) (rows @ calls))\<rparr>)"
    by (simp add: sel_and_del_cmd_rows del: filter_append)
  fix other :: int
  assume "other \<noteq> stream_id"
  then have "filter (\<lambda>row. fst row = other) (filter (\<lambda>row. fst row \<noteq> stream_id) (rows @ calls)) =
             filter (\<lambda>row. fst row = other) (rows @ calls)"
    by (auto intro: filter_cong simp del: filter_append)
  then show "fst (sel_and_del_cmd
                   (db\<lparr>cmd_pool := Some (filter (\<lambda>row. fst row \<noteq> stream_id) (rows @ calls))\<rparr>) other) =
            fst (sel_and_del_cmd (db\<lparr>cmd_pool := Some (rows @ calls)\<rparr>) other)"
    by (simp add: sel_and_del_cmd_rows del: filter_append filter_filter)
qed

theorem sel_and_del_cmd_fifo_witness:
  "cmd_pool fresh_db = Some [] \<and>
   enqueue_cmds fresh_db [(4, ''whoami''), (8, ''dir''), (4, ''ls'')] =
     Inr (fresh_db\<lparr>cmd_pool := Some [(4, ''whoami''), (8, ''dir''), (4, ''ls'')]\<rparr>) \<and>
   sel_and_del_cmd (fresh_db\<lparr>cmd_pool := Some [(4, ''whoami''), (8, ''dir''), (4, ''ls'')]\<rparr>) 4 =
     (([''whoami'', ''ls''], False), fresh_db\<lparr>cmd_pool := Some [(8, ''dir'')]\<rparr>) \<and>
   sel_and_del_cmd (fresh_db\<lparr>cmd_pool := Some [(8, ''dir'')]\<rparr>) 4 =
     (([], False), fresh_db\<lparr>cmd_pool := Some [(8, ''dir'')]\<rparr>) \<and>
   (8::int) \<noteq> 4 \<and>
   fst (sel_and_del_cmd (fresh_db\<lparr>cmd_pool := Some [(8, ''dir'')]\<rparr>) 8) =
     ([''dir''], False) \<and>
   fst (sel_and_del_cmd
          (fresh_db\<lparr>cmd_pool := Some [(4, ''whoami''), (8, ''dir''), (4, ''ls'')]\<rparr>) 8) =
     ([''dir''], False)"
  using sel_and_del_cmd_fifo [of fresh_db "[]" "[(4, ''whoami''), (8, ''dir''), (4, ''ls'')]" 4]
  by (simp add: fresh_db_def init_db_def no_tables_def create_table_def sel_and_del_cmd_def
        insert_new_cmd_def)

text \<open>
  Claim C8 holds of the documented intent (the \<open>except\<close> branch is commented ``stream\_id
  did not exist in this table''), not of the code: a \<open>delete\<close> that matches no row does
  not raise, so \<open>del_stream_id\<close> returns \<open>True\<close> for an identifier that is not in the
  registry. Here the registry holds only client 4 and client 8 is removed.
\<close>

theorem del_stream_id_absent_returns_True:
  "del_stream_id (fresh_db\<lparr>alive_clients := Some [(4, 1000)]\<rparr>) (PyInt 8) =
     (True, fresh_db\<lparr>alive_clients := Some [(4, 1000)]\<rparr>)"
  by (simp add: del_stream_id_def fresh_db_def init_db_def no_tables_def create_table_def)

lemma del_stream_id_always_True:
  "fst (del_stream_id (db\<lparr>alive_clients := Some rows\<rparr>) stream_id) = True"
  by (simp add: del_stream_id_def)

text \<open>
  Claim C1 holds of the documented intent (``limit to one file per interaction'',
  ``delete what was just retrieved''), not of the code: the \<open>delete\<close> removes every row
  of the identifier, so after two filenames are enqueued for client 4 the first call
  returns the older one and the second call returns \<open>''\<close>; the same for inbound requests.
\<close>

theorem sel_and_del_file_deletes_whole_queue:
  "insert_new_file_send fresh_db 4 ''a.txt'' =
     Inr (fresh_db\<lparr>files_send := Some [(4, ''a.txt'')]\<rparr>) \<and>
   insert_new_file_send (fresh_db\<lparr>files_send := Some [(4, ''a.txt'')]\<rparr>) 4 ''b.txt'' =
     Inr (fresh_db\<lparr>files_send := Some [(4, ''a.txt''), (4, ''b.txt'')]\<rparr>) \<and>
   sel_and_del_file_send (fresh_db\<lparr>files_send := Some [(4, ''a.txt''), (4, ''b.txt'')]\<rparr>) 4 =
     ((''a.txt'', False), fresh_db) \<and>
   sel_and_del_file_send fresh_db 4 = (([], False), fresh_db) \<and>
   insert_new_file_recv fresh_db 4 ''a.txt'' =
     Inr (fresh_db\<lparr>files_recv := Some [(4, ''a.txt'')]\<rparr>) \<and>
   insert_new_file_recv (fresh_db\<lparr>files_recv := Some [(4, ''a.txt'')]\<rparr>) 4 ''b.txt'' =
     Inr (fresh_db\<lparr>files_recv := Some [(4, ''a.txt''), (4, ''b.txt'')]\<rparr>) \<and>
   sel_and_del_file_recv (fresh_db\<lparr>files_recv := Some [(4, ''a.txt''), (4, ''b.txt'')]\<rparr>) 4 =
     ((''a.txt'', False), fresh_db) \<and>
   sel_and_del_file_recv fresh_db 4 = (([], False), fresh_db)"
  by (simp add: insert_new_file_send_def insert_new_file_recv_def sel_and_del_file_send_def
        sel_and_del_file_recv_def first_filename_def fresh_db_def init_db_def no_tables_def
        create_table_def)

lemma sel_and_del_file_send_rows:
  "sel_and_del_file_send (db\<lparr>files_send := Some rows\<rparr>) stream_id =
     ((oldest_filename (Some rows) stream_id, False),
      db\<lparr>files_send := Some (filter (\<lambda>row. fst row \<noteq> stream_id) rows)\<rparr>)"
  by (simp add: sel_and_del_file_send_def first_filename_def oldest_filename_def queued_def
        split: list.splits)

text \<open>
  Claim C2 holds of the documented intent (``clean database entries older than 60
  seconds''), not of the code: \<open>sel_all_alive\<close> returns the identifiers only, so in the
  loop \<open>client[1]\<close> is the second character of an identifier and
  \<open>time.time() - client[1]\<close> raises \<open>TypeError\<close> (\<open>IndexError\<close> for a one-digit
  identifier). With a record last seen 61 seconds ago and one 59 seconds ago the call
  raises and evicts nothing, where the sweep by age would evict the first and keep the
  second.
\<close>

theorem clean_stagnant_raises:
  "clean_stagnant (fresh_db\<lparr>alive_clients := Some [(12, 1000), (16, 1002)]\<rparr>) 1061 =
     (Inl TypeError, fresh_db\<lparr>alive_clients := Some [(12, 1000), (16, 1002)]\<rparr>) \<and>
   clean_stagnant (fresh_db\<lparr>alive_clients := Some [(4, 1000), (16, 1002)]\<rparr>) 1061 =
     (Inl IndexError, fresh_db\<lparr>alive_clients := Some [(4, 1000), (16, 1002)]\<rparr>) \<and>
   stagnant_ids 1061 [(12, 1000), (16, 1002)] = [''12''] \<and>
   fresh_rows 1061 [(12, 1000), (16, 1002)] = [(16, 1002)]"
  by (simp add: clean_stagnant_def sel_all_alive_def py_getitem_def str_int_def
        str_nat.simps digit_char_def stagnant_ids_def fresh_rows_def)

lemma clean_stagnant_nonempty_raises:
  assumes "alive_clients db = Some (row # rows)"
  shows "clean_stagnant db now =
           (Inl (if length (str_int (fst row)) \<le> 1 then IndexError else TypeError), db)"
  using assms by (simp add: clean_stagnant_def sel_all_alive_def py_getitem_def)

section \<open>The reply to a hello\<close>

lemma first_filename_queued:
  "first_filename (filter (\<lambda>row. fst row = stream_id) rows) = oldest_filename (Some rows) stream_id"
  by (simp add: first_filename_def oldest_filename_def queued_def split: list.splits)

lemma sel_and_del_cmd_queued:
  "fst (sel_and_del_cmd db stream_id) = (queued (cmd_pool db) stream_id, cmd_pool db = None)"
  by (simp add: sel_and_del_cmd_def queued_def split: option.splits)

lemma sel_and_del_file_send_oldest:
  "fst (sel_and_del_file_send db stream_id) =
     (oldest_filename (files_send db) stream_id, files_send db = None)"
  by (simp add: sel_and_del_file_send_def first_filename_queued split: option.splits)
     (simp add: oldest_filename_def queued_def)

lemma sel_and_del_file_recv_oldest:
  "fst (sel_and_del_file_recv db stream_id) =
     (oldest_filename (files_recv db) stream_id, files_recv db = None)"
  by (simp add: sel_and_del_file_recv_def first_filename_queued split: option.splits)
     (simp add: oldest_filename_def queued_def)

lemma sel_and_del_cmd_frame:
  "alive_clients (snd (sel_and_del_cmd db stream_id)) = alive_clients db"
  "files_send (snd (sel_and_del_cmd db stream_id)) = files_send db"
  "files_recv (snd (sel_and_del_cmd db stream_id)) = files_recv db"
  by (simp_all add: sel_and_del_cmd_def split: option.splits)

lemma sel_and_del_file_send_frame:
  "alive_clients (snd (sel_and_del_file_send db stream_id)) = alive_clients db"
  "cmd_pool (snd (sel_and_del_file_send db stream_id)) = cmd_pool db"
  "files_recv (snd (sel_and_del_file_send db stream_id)) = files_recv db"
  by (simp_all add: sel_and_del_file_send_def split: option.splits)

lemma sel_and_del_file_recv_frame:
  "alive_clients (snd (sel_and_del_file_recv db stream_id)) = alive_clients db"
  "cmd_pool (snd (sel_and_del_file_recv db stream_id)) = cmd_pool db"
  "files_send (snd (sel_and_del_file_recv db stream_id)) = files_send db"
  by (simp_all add: sel_and_del_file_recv_def split: option.splits)

lemma oldest_filename_None [simp]: "oldest_filename None stream_id = []"
  by (simp add: oldest_filename_def queued_def)

lemma queued_None [simp]: "queued None stream_id = []"
  by (simp add: queued_def)

lemma hello_reply_priority:
  "fst (hello_reply db stream_id) = priority_reply db stream_id"
proof -
  obtain r1 db1 where s1: "sel_and_del_cmd db stream_id = (r1, db1)" by (cases "sel_and_del_cmd db stream_id")
  obtain r2 db2 where s2: "sel_and_del_file_send db1 stream_id = (r2, db2)" by (cases "sel_and_del_file_send db1 stream_id")
  obtain r3 db3 where s3: "sel_and_del_file_recv db2 stream_id = (r3, db3)" by (cases "sel_and_del_file_recv db2 stream_id")
  have r1: "r1 = (queued (cmd_pool db) stream_id, cmd_pool db = None)"
    using sel_and_del_cmd_queued [of db stream_id] s1 by simp
  have db1: "files_send db1 = files_send db" "files_recv db1 = files_recv db"
    using sel_and_del_cmd_frame [of db stream_id] s1 by simp_all
  have r2: "r2 = (oldest_filename (files_send db) stream_id, files_send db = None)"
    using sel_and_del_file_send_oldest [of db1 stream_id] s2 db1 by simp
  have db2: "files_recv db2 = files_recv db"
    using sel_and_del_file_send_frame [of db1 stream_id] s2 db1 by simp
  have r3: "r3 = (oldest_filename (files_recv db) stream_id, files_recv db = None)"
    using sel_and_del_file_recv_oldest [of db2 stream_id] s3 db2 by simp
  show ?thesis
    by (cases "cmd_pool db"; cases "files_send db"; cases "files_recv db")
       (simp_all add: hello_reply_def priority_reply_def s1 s2 s3 r1 r2 r3)
qed

lemma hello_reply_registry:
  "alive_clients (snd (hello_reply db stream_id)) = alive_clients db"
proof -
  obtain r1 db1 where s1: "sel_and_del_cmd db stream_id = (r1, db1)" by (cases "sel_and_del_cmd db stream_id")
  obtain r2 db2 where s2: "sel_and_del_file_send db1 stream_id = (r2, db2)" by (cases "sel_and_del_file_send db1 stream_id")
  obtain r3 db3 where s3: "sel_and_del_file_recv db2 stream_id = (r3, db3)" by (cases "sel_and_del_file_recv db2 stream_id")
  have a1: "alive_clients db1 = alive_clients db"
    using sel_and_del_cmd_frame(1) [of db stream_id] s1 by simp
  have a2: "alive_clients db2 = alive_clients db"
    using sel_and_del_file_send_frame(1) [of db1 stream_id] s2 a1 by simp
  have a3: "alive_clients db3 = alive_clients db"
    using sel_and_del_file_recv_frame(1) [of db2 stream_id] s3 a2 by simp
  show ?thesis
    by (cases r1; cases r2; cases r3) (simp add: hello_reply_def s1 s2 s3 a1 a2 a3)
qed

lemma hello_reply_lower_untouched:
  shows "queued (cmd_pool db) stream_id \<noteq> [] \<Longrightarrow>
           files_send (snd (hello_reply db stream_id)) = files_send db"
    and "queued (cmd_pool db) stream_id \<noteq> [] \<or> oldest_filename (files_send db) stream_id \<noteq> [] \<Longrightarrow>
           files_recv (snd (hello_reply db stream_id)) = files_recv db"
proof -
  obtain r1 db1 where s1: "sel_and_del_cmd db stream_id = (r1, db1)"
    by (cases "sel_and_del_cmd db stream_id")
  obtain r2 db2 where s2: "sel_and_del_file_send db1 stream_id = (r2, db2)"
    by (cases "sel_and_del_file_send db1 stream_id")
  obtain r3 db3 where s3: "sel_and_del_file_recv db2 stream_id = (r3, db3)"
    by (cases "sel_and_del_file_recv db2 stream_id")
  have r1: "r1 = (queued (cmd_pool db) stream_id, cmd_pool db = None)"
    using sel_and_del_cmd_queued [of db stream_id] s1 by simp
  have db1: "files_send db1 = files_send db" "files_recv db1 = files_recv db"
    using sel_and_del_cmd_frame [of db stream_id] s1 by simp_all
  have r2: "r2 = (oldest_filename (files_send db) stream_id, files_send db = None)"
    using sel_and_del_file_send_oldest [of db1 stream_id] s2 db1 by simp
  have db2: "files_recv db2 = files_recv db"
    using sel_and_del_file_send_frame [of db1 stream_id] s2 db1 by simp
  have c: "cmd_pool db \<noteq> None" if "queued (cmd_pool db) stream_id \<noteq> []"
    using that by (cases "cmd_pool db") simp_all
  have f: "files_send db \<noteq> None" if "oldest_filename (files_send db) stream_id \<noteq> []"
    using that by (cases "files_send db") simp_all
  show "queued (cmd_pool db) stream_id \<noteq> [] \<Longrightarrow>
           files_send (snd (hello_reply db stream_id)) = files_send db"
    using c by (simp add: hello_reply_def s1 r1 db1)
  show "queued (cmd_pool db) stream_id \<noteq> [] \<or> oldest_filename (files_send db) stream_id \<noteq> [] \<Longrightarrow>
           files_recv (snd (hello_reply db stream_id)) = files_recv db"
    using c f by (auto simp: hello_reply_def s1 s2 r1 r2 db1 db2)
qed

lemma priority_reply_registry [simp]:
  "priority_reply (db\<lparr>alive_clients := a\<rparr>) stream_id = priority_reply db stream_id"
  by (simp add: priority_reply_def)

lemma respond_to_sdr_hello:
  assumes "insert_new_stream_id db stream_id now = Inr (added, db0)"
  shows "respond_to_sdr db stream_id CLIENT_HELLO now =
         Inr (fst (hello_reply db0 stream_id), snd (hello_reply db0 stream_id))"
  using assms by (simp add: respond_to_sdr_def)

text \<open>
  Claim C4, as amended. With the registry table present, a \<open>CLIENT_HELLO\<close> is answered
  without an exception. The identifier is registered first: afterwards the registry holds
  the former rows, and one new row (stream\_id, now) when the identifier was not there.
  The reply is the first of: \<open>SERVER_SEES_HELLO\<close> with every command queued for the
  identifier, in order, when there is one; \<open>SERVER_FILE_SEND\<close> with the oldest outbound
  filename when that filename is not empty; \<open>SERVER_FILE_RECV\<close> with the oldest inbound
  filename when that filename is not empty; \<open>NO_RESPONSE_NEEDED\<close> with no items. A
  table that cannot be read counts as empty. A source of lower priority is not touched
  when a source of higher priority answers.
\<close>

theorem respond_to_sdr_hello_priority:
  assumes "alive_clients db = Some rows"
  shows "\<exists>db'. respond_to_sdr db stream_id CLIENT_HELLO now =
                 Inr (priority_reply db stream_id, db') \<and>
               alive_clients db' =
                 Some (if stream_id \<in> fst ` set rows then rows else rows @ [(stream_id, now)]) \<and>
               (queued (cmd_pool db) stream_id \<noteq> [] \<longrightarrow>
                  files_send db' = files_send db \<and> files_recv db' = files_recv db) \<and>
               (oldest_filename (files_send db) stream_id \<noteq> [] \<longrightarrow>
                  files_recv db' = files_recv db)"
proof -
  define db0 where
    "db0 = (if stream_id \<in> fst ` set rows then db
            else db\<lparr>alive_clients := Some (rows @ [(stream_id, now)])\<rparr>)"
  have ins: "insert_new_stream_id db stream_id now = Inr (stream_id \<notin> fst ` set rows, db0)"
    using assms insert_new_stream_id_present [of db rows stream_id now]
      insert_new_stream_id_absent [of db rows stream_id now]
    by (simp add: db0_def)
  have tables: "cmd_pool db0 = cmd_pool db" "files_send db0 = files_send db"
    "files_recv db0 = files_recv db"
    by (simp_all add: db0_def)
  have reg: "alive_clients db0 =
             Some (if stream_id \<in> fst ` set rows then rows else rows @ [(stream_id, now)])"
    using assms by (simp add: db0_def)
  have pr: "priority_reply db0 stream_id = priority_reply db stream_id"
    by (simp add: db0_def)
  let ?db' = "snd (hello_reply db0 stream_id)"
  have "respond_to_sdr db stream_id CLIENT_HELLO now = Inr (priority_reply db stream_id, ?db')"
    using respond_to_sdr_hello [OF ins] hello_reply_priority [of db0 stream_id] pr by simp
  moreover have "alive_clients ?db' =
                 Some (if stream_id \<in> fst ` set rows then rows else rows @ [(stream_id, now)])"
    using reg by (simp add: hello_reply_registry)
  moreover have "queued (cmd_pool db) stream_id \<noteq> [] \<longrightarrow>
                   files_send ?db' = files_send db \<and> files_recv ?db' = files_recv db"
    using hello_reply_lower_untouched [of db0 stream_id] tables by simp
  moreover have "oldest_filename (files_send db) stream_id \<noteq> [] \<longrightarrow>
                   files_recv ?db' = files_recv db"
    using hello_reply_lower_untouched(2) [of db0 stream_id] tables by simp
  ultimately show ?thesis by blast
qed

theorem respond_to_sdr_hello_priority_witness:
  "alive_clients (fresh_db\<lparr>cmd_pool := Some [(4, ''whoami''), (4, ''ls'')],
                          files_send := Some [(4, ''a.txt'')]\<rparr>) = Some [] \<and>
   queued (Some [(4, ''whoami''), (4, ''ls'')]) 4 \<noteq> [] \<and>
   oldest_filename (Some [(4, ''a.txt'')]) 4 \<noteq> [] \<and>
   (\<exists>db'. respond_to_sdr (fresh_db\<lparr>cmd_pool := Some [(4, ''whoami''), (4, ''ls'')],
                                    files_send := Some [(4, ''a.txt'')]\<rparr>) 4 CLIENT_HELLO 100 =
            Inr ((SERVER_SEES_HELLO, [''whoami'', ''ls'']), db') \<and>
          alive_clients db' = Some [(4, 100)] \<and>
          files_send db' = Some [(4, ''a.txt'')] \<and>
          files_recv db' = Some [])"
proof -
  have h: "alive_clients (fresh_db\<lparr>cmd_pool := Some [(4, ''whoami''), (4, ''ls'')],
                                   files_send := Some [(4, ''a.txt'')]\<rparr>) = Some []"
    by (simp add: fresh_db_def init_db_def no_tables_def create_table_def)
  show ?thesis
    using h respond_to_sdr_hello_priority [OF h, of 4 100]
    by (simp add: priority_reply_def queued_def oldest_filename_def fresh_db_def init_db_def
          no_tables_def create_table_def)
qed

text \<open>
  Claim C4 as stated fails where the oldest queued filename is empty: with an inbound
  request for client 4 whose filename is \<open>''\<close> and nothing else queued, the reply is
  \<open>NO_RESPONSE_NEEDED\<close>, not \<open>SERVER_FILE_RECV\<close>, and the request is consumed.
\<close>

theorem respond_to_sdr_empty_filename_counterexample:
  "insert_new_file_recv fresh_db 4 [] = Inr (fresh_db\<lparr>files_recv := Some [(4, [])]\<rparr>) \<and>
   respond_to_sdr (fresh_db\<lparr>files_recv := Some [(4, [])]\<rparr>) 4 CLIENT_HELLO 100 =
     Inr ((NO_RESPONSE_NEEDED, []), fresh_db\<lparr>alive_clients := Some [(4, 100)]\<rparr>) \<and>
   respond_to_sdr (fresh_db\<lparr>files_recv := Some [(4, [])]\<rparr>) 4 CLIENT_HELLO 100 \<noteq>
     Inr ((SERVER_FILE_RECV, [[]]), fresh_db\<lparr>alive_clients := Some [(4, 100)]\<rparr>)"
  by (simp add: respond_to_sdr_def insert_new_stream_id_def sel_all_alive_def hello_reply_def
        sel_and_del_cmd_def sel_and_del_file_send_def sel_and_del_file_recv_def
        first_filename_def insert_new_file_recv_def fresh_db_def init_db_def no_tables_def
        create_table_def)

section \<open>Chunking and reassembly\<close>

lemma response_chunks_concat: "concat (response_chunks response i) = drop i response"
proof (induction response i rule: response_chunks.induct)
  case (1 response i)
  show ?case
  proof (cases "i + MAX_BYTES > length response")
    case True
    then show ?thesis
      by (subst response_chunks.simps) (simp add: py_slice_def)
  next
    case False
    then have "concat (response_chunks response (i + MAX_BYTES)) = drop (i + MAX_BYTES) response"
      using 1 by simp
    moreover have "take MAX_BYTES (drop i response) @ drop (i + MAX_BYTES) response = drop i response"
      by (metis add.commute append_take_drop_id drop_drop)
    ultimately show ?thesis
      using False by (subst response_chunks.simps) (simp add: py_slice_def)
  qed
qed

lemma response_chunks_bound: "\<forall>c \<in> set (response_chunks response i). length c \<le> MAX_BYTES"
proof (induction response i rule: response_chunks.induct)
  case (1 response i)
  show ?case
  proof (cases "i + MAX_BYTES > length response")
    case True
    then show ?thesis by (subst response_chunks.simps) (simp add: py_slice_def)
  next
    case False
    with 1 show ?thesis by (subst response_chunks.simps) (simp add: py_slice_def)
  qed
qed

lemma file_chunks_concat: "concat (file_chunks unread) = unread"
proof (induction unread rule: file_chunks.induct)
  case (1 unread)
  show ?case
  proof (cases "take MAX_BYTES unread = []")
    case True
    then have "unread = []" by (simp add: MAX_BYTES_def)
    then show ?thesis by (subst file_chunks.simps) simp
  next
    case False
    with 1 have "concat (file_chunks (drop MAX_BYTES unread)) = drop MAX_BYTES unread" by simp
    with False show ?thesis by (subst file_chunks.simps) (simp add: Let_def)
  qed
qed

lemma file_chunks_bound: "\<forall>c \<in> set (file_chunks unread). length c \<le> MAX_BYTES \<and> c \<noteq> []"
proof (induction unread rule: file_chunks.induct)
  case (1 unread)
  show ?case
  proof (cases "take MAX_BYTES unread = []")
    case True
    then show ?thesis by (subst file_chunks.simps) simp
  next
    case False
    with 1 show ?thesis by (subst file_chunks.simps) (simp add: Let_def)
  qed
qed

lemma receive_chunk_upload:
  "remote_max_data conn = Actions_value CLIENT_FILE_SEND \<Longrightarrow>
   quic_event_received conn stream_id data = Returned (conn\<lparr>temp_file := temp_file conn @ data\<rparr>)"
  using int_to_enum_value [of CLIENT_FILE_SEND]
  by (simp add: quic_event_received_def Let_def del: Actions_value.simps)

lemma receive_chunks_upload:
  "remote_max_data conn = Actions_value CLIENT_FILE_SEND \<Longrightarrow>
   receive_chunks conn stream_id chunks = conn\<lparr>temp_file := temp_file conn @ concat chunks\<rparr>"
proof (induction chunks arbitrary: conn)
  case Nil
  then show ?case by simp
next
  case (Cons data chunks)
  let ?c = "conn\<lparr>temp_file := temp_file conn @ data\<rparr>"
  have "remote_max_data ?c = Actions_value CLIENT_FILE_SEND" using Cons.prems by simp
  then have "receive_chunks ?c stream_id chunks = ?c\<lparr>temp_file := temp_file ?c @ concat chunks\<rparr>"
    by (rule Cons.IH)
  then show ?case using Cons.prems by (simp add: receive_chunk_upload)
qed

text \<open>
  Claim C5. For every payload, the frames of the response loop and the frames of the
  file loop are each at most \<open>MAX_BYTES\<close> long and their concatenation is the payload;
  a receiver that appends every frame to \<open>temp\<close> in arrival order, as the server does
  while the signal is \<open>CLIENT_FILE_SEND\<close>, ends with what \<open>temp\<close> held before followed
  by exactly the payload.
\<close>

theorem chunking_roundtrip:
  "(\<forall>c \<in> set (response_chunks payload 0). length c \<le> MAX_BYTES) \<and>
   concat (response_chunks payload 0) = payload \<and>
   (\<forall>c \<in> set (file_chunks payload). length c \<le> MAX_BYTES) \<and>
   concat (file_chunks payload) = payload \<and>
   receive_chunks (conn\<lparr>remote_max_data := Actions_value CLIENT_FILE_SEND\<rparr>) stream_id
       (file_chunks payload) =
     conn\<lparr>remote_max_data := Actions_value CLIENT_FILE_SEND, temp_file := temp_file conn @ payload\<rparr> \<and>
   receive_chunks (conn\<lparr>remote_max_data := Actions_value CLIENT_FILE_SEND\<rparr>) stream_id
       (response_chunks payload 0) =
     conn\<lparr>remote_max_data := Actions_value CLIENT_FILE_SEND, temp_file := temp_file conn @ payload\<rparr>"
  using response_chunks_bound [of payload 0] file_chunks_bound [of payload]
  by (simp add: response_chunks_concat file_chunks_concat receive_chunks_upload
        del: Actions_value.simps)

theorem chunking_roundtrip_witness:
  "map length (file_chunks (replicate (5 * 1230 + 37) (CHR ''x''))) =
     [1230, 1230, 1230, 1230, 1230, 37] \<and>
   list_all (\<lambda>c. length c \<le> MAX_BYTES) (file_chunks (replicate (5 * 1230 + 37) (CHR ''x''))) \<and>
   concat (file_chunks (replicate (5 * 1230 + 37) (CHR ''x''))) =
     replicate (5 * 1230 + 37) (CHR ''x'') \<and>
   temp_file (receive_chunks upload_conn 4 (file_chunks (replicate (5 * 1230 + 37) (CHR ''x'')))) =
     replicate (5 * 1230 + 37) (CHR ''x'') \<and>
   response_chunks ''abc'' 0 = [''abc''] \<and>
   list_all (\<lambda>c. length c \<le> MAX_BYTES) (response_chunks ''abc'' 0) \<and>
   temp_file (receive_chunks upload_conn 4 (response_chunks ''abc'' 0)) = ''abc''"
proof -
  have n: "map length (file_chunks (replicate (5 * 1230 + 37) (CHR ''x''))) =
             [1230, 1230, 1230, 1230, 1230, 37]"
    by (simp add: file_chunks.simps MAX_BYTES_def Let_def)
  have r: "response_chunks ''abc'' 0 = [''abc'']"
    by (simp add: response_chunks.simps py_slice_def MAX_BYTES_def)
  have u: "upload_conn\<lparr>remote_max_data := Actions_value CLIENT_FILE_SEND\<rparr> = upload_conn"
    by (simp add: upload_conn_def)
  have t: "temp_file upload_conn = []"
    by (simp add: upload_conn_def)
  show ?thesis
    using chunking_roundtrip [of "replicate (5 * 1230 + 37) (CHR ''x'')" upload_conn 4]
      chunking_roundtrip [of "''abc''" upload_conn 4] n r
    by (simp add: u t list_all_iff del: Actions_value.simps)
qed

section \<open>Delimiter framing\<close>

lemma split_from_Nil: "split_from sep cur [] = [rev cur]"
  by (simp add: split_from.simps)

lemma split_from_cut:
  "sep \<noteq> [] \<Longrightarrow> split_from sep cur (sep @ rest) = rev cur # split_from sep [] rest"
  by (subst split_from.simps) simp

lemma split_from_step:
  "\<not> prefix sep (c # s) \<Longrightarrow> split_from sep cur (c # s) = split_from sep (c # cur) s"
  by (subst split_from.simps) simp

lemma prefix_delim_before:
  assumes "prefix DELIMITER (c # x @ DELIMITER @ rest)"
  shows "prefix DELIMITER (c # x @ ''**'')"
proof (cases x)
  case Nil
  with assms show ?thesis by (simp add: DELIMITER_def)
next
  case (Cons a y)
  with assms show ?thesis by (cases y) (auto simp: DELIMITER_def)
qed

lemma split_from_item:
  "\<not> sublist DELIMITER (x @ ''**'') \<Longrightarrow>
   split_from DELIMITER cur (x @ DELIMITER @ rest) = (rev cur @ x) # split_from DELIMITER [] rest"
proof (induction x arbitrary: cur)
  case Nil
  show ?case using split_from_cut [of DELIMITER cur rest] by (simp add: DELIMITER_def)
next
  case (Cons c x)
  have np: "\<not> prefix DELIMITER (c # x @ DELIMITER @ rest)"
  proof
    assume "prefix DELIMITER (c # x @ DELIMITER @ rest)"
    then have "prefix DELIMITER ((c # x) @ ''**'')" using prefix_delim_before by simp
    then have "sublist DELIMITER ((c # x) @ ''**'')" by (rule prefix_imp_sublist)
    with Cons.prems show False by simp
  qed
  have "\<not> sublist DELIMITER (x @ ''**'')"
    using Cons.prems by (simp add: sublist_Cons_right)
  then have "split_from DELIMITER (c # cur) (x @ DELIMITER @ rest) =
             (rev (c # cur) @ x) # split_from DELIMITER [] rest"
    by (rule Cons.IH)
  with np show ?case by (simp add: split_from_step)
qed

lemma split_from_no_delim:
  "\<not> sublist DELIMITER x \<Longrightarrow> split_from DELIMITER cur x = [rev cur @ x]"
proof (induction x arbitrary: cur)
  case Nil
  show ?case by (simp add: split_from_Nil)
next
  case (Cons c x)
  then have "\<not> prefix DELIMITER (c # x)" and "\<not> sublist DELIMITER x"
    by (auto simp: sublist_Cons_right)
  with Cons.IH [of "c # cur"] show ?case by (simp add: split_from_step)
qed

lemma clean_item_tight:
  assumes "\<not> sublist DELIMITER x" and "x \<noteq> []" and "last x \<noteq> CHR ''*''"
  shows "\<not> sublist DELIMITER (x @ ''**'')"
proof
  assume "sublist DELIMITER (x @ ''**'')"
  then consider "sublist DELIMITER x" | "sublist DELIMITER ''**''"
    | xs1 xs2 where "DELIMITER = xs1 @ xs2" "suffix xs1 x" "prefix xs2 ''**''"
    by (auto simp: sublist_append)
  then show False
  proof cases
    case 1
    with assms show False by simp
  next
    case 2
    then have "length DELIMITER \<le> length ''**''" by (rule sublist_length_le)
    then show False by (simp add: DELIMITER_def)
  next
    case 3
    have "length xs2 \<le> 2" using 3(3) prefix_length_le by fastforce
    moreover have "length xs1 + length xs2 = 3"
      using arg_cong [OF 3(1), of length] by (simp add: DELIMITER_def)
    ultimately have ne: "xs1 \<noteq> []" by auto
    have "last xs1 \<in> set DELIMITER" using 3(1) ne by (metis last_in_set Un_iff set_append)
    then have "last xs1 = CHR ''*''" by (simp add: DELIMITER_def)
    moreover obtain ps where "x = ps @ xs1" using 3(2) by (auto simp: suffix_def)
    ultimately have "last x = CHR ''*''" using ne by simp
    with assms show False by simp
  qed
qed

lemma split_from_trailing:
  "split_from DELIMITER [] (trailing k) = replicate (Suc k) []"
proof (induction k)
  case 0
  show ?case by (simp add: trailing_def split_from_Nil)
next
  case (Suc k)
  have "split_from DELIMITER [] (DELIMITER @ trailing k) = [] # split_from DELIMITER [] (trailing k)"
    using split_from_cut [of DELIMITER "[]" "trailing k"] by (simp add: DELIMITER_def)
  with Suc show ?case by (simp add: trailing_def)
qed

lemma clean_item_facts:
  assumes "clean_item x"
  shows "x \<noteq> []" and "\<not> sublist DELIMITER x" and "\<not> sublist DELIMITER (x @ ''**'')"
    and "py_strip x = x" and "\<not> py_isspace (hd x)" and "\<not> py_isspace (last x)"
proof -
  show a: "x \<noteq> []" and b: "\<not> sublist DELIMITER x"
    and c: "\<not> py_isspace (hd x)" and d: "\<not> py_isspace (last x)"
    using assms by (simp_all add: clean_item_def)
  show "\<not> sublist DELIMITER (x @ ''**'')"
    using assms by (intro clean_item_tight) (simp_all add: clean_item_def)
  show "py_strip x = x" using a c d by (rule py_strip_id)
qed

lemma split_from_join:
  assumes "\<forall>x \<in> set items. clean_item x" and "items \<noteq> []"
  shows "split_from DELIMITER [] (py_join DELIMITER items @ trailing k) = items @ replicate k []"
  using assms
proof (induction DELIMITER items rule: py_join.induct)
  case 1
  then show ?case by simp
next
  case (2 x)
  then have cx: "clean_item x" by simp
  show ?case
  proof (cases k)
    case 0
    then show ?thesis
      using split_from_no_delim [OF clean_item_facts(2) [OF cx], of "[]"]
      by (simp add: trailing_def)
  next
    case (Suc j)
    have "split_from DELIMITER [] (x @ DELIMITER @ trailing j) =
          x # split_from DELIMITER [] (trailing j)"
      using split_from_item [OF clean_item_facts(3) [OF cx], of "[]" "trailing j"] by simp
    then show ?thesis
      using Suc by (simp add: trailing_def split_from_trailing [unfolded trailing_def])
  qed
next
  case (3 x y r)
  then have cx: "clean_item x" by simp
  have ih: "split_from DELIMITER [] (py_join DELIMITER (y # r) @ trailing k) = (y # r) @ replicate k []"
    using 3 by simp
  have "split_from DELIMITER [] (x @ DELIMITER @ (py_join DELIMITER (y # r) @ trailing k)) =
        x # split_from DELIMITER [] (py_join DELIMITER (y # r) @ trailing k)"
    using split_from_item [OF clean_item_facts(3) [OF cx], of "[]"] by simp
  with ih show ?case by simp
qed

lemma hd_py_join: "x \<noteq> [] \<Longrightarrow> hd (py_join sep (x # r) @ t) = hd x"
  by (cases r) simp_all

lemma py_join_nonempty: "x \<noteq> [] \<Longrightarrow> py_join sep (x # r) \<noteq> []"
  by (cases r) simp_all

lemma last_py_join:
  "items \<noteq> [] \<Longrightarrow> \<forall>x \<in> set items. x \<noteq> [] \<Longrightarrow> last (py_join sep items) = last (last items)"
proof (induction sep items rule: py_join.induct)
  case (3 sep x y r)
  then have "py_join sep (y # r) \<noteq> []" by (simp add: py_join_nonempty)
  with 3 show ?case by simp
qed simp_all

lemma last_trailing: "last (s @ trailing (Suc k)) = CHR ''*''"
proof -
  have "trailing (Suc k) = trailing k @ DELIMITER"
    by (induction k) (simp_all add: trailing_def)
  then show ?thesis by (simp add: DELIMITER_def)
qed

lemma py_strip_message:
  assumes "\<forall>x \<in> set items. clean_item x"
  shows "py_strip (py_join DELIMITER items @ trailing k) = py_join DELIMITER items @ trailing k"
proof (cases items)
  case Nil
  show ?thesis
  proof (cases k)
    case 0
    with Nil show ?thesis by (simp add: trailing_def py_strip_def)
  next
    case (Suc j)
    have "trailing (Suc j) \<noteq> []" and "hd (trailing (Suc j)) = CHR ''*''"
      by (simp_all add: trailing_def DELIMITER_def)
    moreover have "last (trailing (Suc j)) = CHR ''*''" using last_trailing [of "[]" j] by simp
    ultimately have "py_strip (trailing (Suc j)) = trailing (Suc j)"
      by (intro py_strip_id) (simp_all add: py_isspace_def)
    with Nil Suc show ?thesis by simp
  qed
next
  case (Cons x r)
  then have cx: "clean_item x" using assms by simp
  have ne: "\<forall>x \<in> set items. x \<noteq> []" using assms clean_item_facts(1) by blast
  have 1: "py_join DELIMITER items @ trailing k \<noteq> []"
    using Cons clean_item_facts(1) [OF cx] by (simp add: py_join_nonempty)
  have 2: "\<not> py_isspace (hd (py_join DELIMITER items @ trailing k))"
    using Cons clean_item_facts(1,5) [OF cx] by (simp add: hd_py_join)
  have 3: "\<not> py_isspace (last (py_join DELIMITER items @ trailing k))"
  proof (cases k)
    case 0
    have "clean_item (last items)" using assms Cons by (metis last_in_set list.distinct(1))
    then have "\<not> py_isspace (last (last items))" by (rule clean_item_facts(6))
    moreover have "py_join DELIMITER items \<noteq> []"
      using Cons clean_item_facts(1) [OF cx] by (simp add: py_join_nonempty)
    ultimately show ?thesis using 0 Cons ne by (simp add: trailing_def last_py_join)
  next
    case (Suc j)
    then show ?thesis by (simp add: last_trailing py_isspace_def)
  qed
  from 1 2 3 show ?thesis by (rule py_strip_id)
qed

text \<open>
  Claim C9, as amended. For every sequence of items that are not empty, contain no
  delimiter, do not end with \<open>*\<close> and have no whitespace at either end: the items joined
  with the delimiter, or sent as the server's frames (each item followed by the
  delimiter) and merged by the transport, followed by any number of extra delimiters,
  are read back by the client as exactly the items.
\<close>

theorem server_data_recovers_items:
  assumes "\<forall>x \<in> set items. clean_item x"
  shows "server_data (py_join DELIMITER items @ trailing k) = Inr items \<and>
         server_data (coalesced items @ trailing k) = Inr items"
proof -
  have ne: "\<forall>x \<in> set items. x \<noteq> []" using assms clean_item_facts(1) by blast
  have strip: "map py_strip items = items"
    using assms clean_item_facts(4) by (simp add: map_idI)
  have keep: "filter (\<lambda>x. x \<noteq> []) items = items" using ne by simp
  have join: "server_data (py_join DELIMITER items @ trailing j) = Inr items" for j
  proof (cases "items = []")
    case True
    then show ?thesis
      using py_strip_message [OF assms, of j] split_from_trailing [of j]
      by (simp add: server_data_def py_split_def DELIMITER_def)
  next
    case False
    then show ?thesis
      using py_strip_message [OF assms, of j] split_from_join [OF assms False, of j] strip keep
      by (simp add: server_data_def py_split_def DELIMITER_def)
  qed
  have co: "coalesced items @ trailing k =
            (if items = [] then trailing k else py_join DELIMITER items @ trailing (Suc k))"
    by (induction DELIMITER items rule: py_join.induct)
       (simp_all add: coalesced_def custom_frame_def trailing_def)
  show ?thesis using join [of k] join [of "Suc k"] co by (auto simp: coalesced_def)
qed

theorem server_data_recovers_items_witness:
  "clean_item ''a'' \<and> clean_item ''b'' \<and> clean_item ''c'' \<and>
   py_join DELIMITER [''a'', ''b'', ''c''] = ''a***b***c'' \<and>
   server_data ''a***b***c'' = Inr [''a'', ''b'', ''c''] \<and>
   server_data ''a***b***c***'' = Inr [''a'', ''b'', ''c''] \<and>
   server_data ''a***b***c******'' = Inr [''a'', ''b'', ''c'']"
proof -
  have c: "\<forall>x \<in> set [''a'', ''b'', ''c'']. clean_item x"
    by (simp add: clean_item_def DELIMITER_def py_isspace_def sublist_Cons_right)
  show ?thesis
    using c server_data_recovers_items [OF c, of 0] server_data_recovers_items [OF c, of 1]
      server_data_recovers_items [OF c, of 2]
    by (simp add: DELIMITER_def trailing_def coalesced_def custom_frame_def)
qed

text \<open>
  Claim C9 as stated fails for an item that ends with \<open>*\<close>: the command \<open>ls *\<close> is
  framed as \<open>ls ****\<close> and read back as the two items \<open>ls\<close> and \<open>*\<close>. It fails as
  well for an item that holds the delimiter, which is cut there, and for an item with
  whitespace at an end, which is read back without it.
\<close>

theorem server_data_star_counterexample:
  "''ls *'' \<noteq> [] \<and>
   coalesced [''ls *''] = ''ls ****'' \<and>
   server_data (coalesced [''ls *'']) = Inr [''ls'', ''*''] \<and>
   server_data (coalesced [''ls *'']) \<noteq> Inr [''ls *''] \<and>
   server_data (coalesced [''echo a***b'']) = Inr [''echo a'', ''b''] \<and>
   server_data (coalesced [''a'', '' b'']) = Inr [''a'', ''b'']"
  by code_simp

section \<open>Command execution on the client\<close>

lemma custom_command_returns: "\<exists>output. custom_command sh cmd = Inr output"
  by (simp add: custom_command_def subprocess_run_def Let_def)

lemma stock_command_propagates:
  assumes "platform_cmd os (name_lower input_cmd) = Inr cmd"
    and "returncode (sh (''powershell.exe '' @ cmd)) \<noteq> 0"
  shows "stock_command os sh input_cmd =
           Inl (CalledProcessError (returncode (sh (''powershell.exe '' @ cmd)))
                  (stdout (sh (''powershell.exe '' @ cmd))) (stderr (sh (''powershell.exe '' @ cmd))))"
  using assms by (simp add: stock_command_def subprocess_run_def Let_def)

text \<open>
  Claim C3 holds of \<open>custom_command\<close>, which catches \<open>CalledProcessError\<close> and returns
  the error text, and of the documented intent (``logic is the same as above''), not of
  \<open>stock_command\<close>: it runs the command with \<open>check=True\<close> and catches nothing. Where
  the command exits with status 1, \<open>stock_command(Actions.WHOAMI)\<close> raises
  \<open>CalledProcessError\<close>, and so does the client's handler around it; on a platform that
  is neither Windows nor Linux \<open>stock_command(Actions.IPCONFIG)\<close> raises
  \<open>NotImplementedError\<close>. The same failure in \<open>custom_command\<close> is returned as text.
\<close>

theorem stock_command_raises:
  "stock_command ''Windows'' failing_shell WHOAMI =
     Inl (CalledProcessError 1 [] ''not recognized'') \<and>
   client_responses ''Windows'' failing_shell WHOAMI [] =
     Inl (CalledProcessError 1 [] ''not recognized'') \<and>
   stock_command ''Darwin'' failing_shell IPCONFIG = Inl NotImplementedError \<and>
   custom_command failing_shell ''whoami'' =
     Inr (CHR ''b'' # CHR 0x27 # ''not recognized'' @ [CHR 0x27])"
  by (simp add: stock_command_def client_responses_def custom_command_def platform_cmd_def
        subprocess_run_def failing_shell_def str_bytes_def escape_byte_def Let_def)

end
